theory Spec2Isabelle
  imports Complex_Main
begin

text \<open>
  The account and usage synchronisation of the account switcher: the \<open>useAccounts\<close>
  hook, which keeps the list of accounts with their usage snapshots and loading flags in
  step with the command gateway, and the handlers of the add-account modal that drive
  the browser login. Every asynchronous function is modelled as a function from the
  state before it to the state after it and its outcome, the answers of the gateway
  being given; a function whose interleaving with others matters is split at its
  \<open>await\<close>.
\<close>

section \<open>Types shared with the backend\<close>

text \<open>
  The declarations of the types module. A field of type \<open>T | null\<close> is a \<open>T option\<close>;
  an optional field \<open>f?: T\<close> is a \<open>T option\<close> as well, \<open>None\<close> standing for
  \<open>undefined\<close>. No function of the hook computes with a \<open>number\<close>: the numeric
  fields are only carried from a response into the registry.
\<close>

datatype AuthMode = api_key | chat_gpt

type_synonym number = real

record AccountInfo =
  id' :: string
  name :: string
  email :: "string option"
  plan_type :: "string option"
  auth_mode :: AuthMode
  is_active :: bool
  created_at :: string
  last_used_at :: "string option"

record UsageInfo =
  account_id :: string
  plan_type :: "string option"
  primary_used_percent :: "number option"
  primary_window_minutes :: "number option"
  primary_resets_at :: "number option"
  secondary_used_percent :: "number option"
  secondary_window_minutes :: "number option"
  secondary_resets_at :: "number option"
  has_credits :: "bool option"
  unlimited_credits :: "bool option"
  credits_balance :: "string option"
  error :: "string option"

record OAuthLoginInfo =
  auth_url :: string
  callback_port :: number

record AccountWithUsage = AccountInfo +
  usage :: "UsageInfo option"
  usageLoading :: "bool option"

section \<open>The command gateway and the environment\<close>

text \<open>
  A value thrown by a rejected \<open>invoke\<close>: either an \<open>Error\<close> object with its message
  or any other value, kept as the text \<open>String(err)\<close> yields for it.
\<close>

datatype thrown = JsError string | JsValue string

fun err_message :: "thrown \<Rightarrow> string" where
  "err_message (JsError m) = m"
| "err_message (JsValue s) = s"

text \<open>The commands the hook passes to \<open>invoke\<close>, with their arguments.\<close>

datatype command =
    ListAccounts
  | RefreshAllAccountsUsage
  | GetUsage string
  | SwitchAccount string
  | DeleteAccount string
  | RenameAccount string string
  | AddAccountFromFile string string
  | StartLogin string
  | CompleteLogin
  | CancelLogin

text \<open>
  What the outside world answers during one operation: \<open>Inl\<close> is a rejected promise,
  \<open>Inr\<close> a resolved one. \<open>isTauri\<close> and \<open>openUrl\<close> are the two other imports
  the code calls.
\<close>

record environment =
  isTauri :: bool
  list_accounts :: "thrown + AccountInfo list"
  refresh_all_accounts_usage :: "thrown + UsageInfo list"
  get_usage :: "string \<Rightarrow> thrown + UsageInfo"
  switch_account :: "string \<Rightarrow> thrown + unit"
  delete_account :: "string \<Rightarrow> thrown + unit"
  rename_account :: "string \<Rightarrow> string \<Rightarrow> thrown + unit"
  add_account_from_file :: "string \<Rightarrow> string \<Rightarrow> thrown + AccountInfo"
  start_login :: "string \<Rightarrow> thrown + OAuthLoginInfo"
  complete_login :: "thrown + AccountInfo"
  cancel_login :: "thrown + unit"
  openUrl :: "string \<Rightarrow> thrown + unit"

section \<open>The state of the accounts hook\<close>

text \<open>
  \<open>accounts\<close>, \<open>loading\<close> and \<open>error\<close> are the three \<open>useState\<close> cells of
  \<open>useAccounts\<close>. \<open>invoked\<close> and \<open>console\<close> are instrumentation: the commands
  passed to \<open>invoke\<close> so far, in order, and the calls of \<open>console.error\<close>.
\<close>

record hook_state =
  accounts :: "AccountWithUsage list"
  loading :: bool
  error :: "string option"
  invoked :: "command list"
  console :: "(string \<times> thrown) list"

definition initial_state :: hook_state where
  "initial_state =
     \<lparr>accounts = [], loading = True, error = None, invoked = [], console = []\<rparr>"

text \<open>The registry proper: the three cells a caller of the hook can read.\<close>

definition registry :: "hook_state \<Rightarrow> AccountWithUsage list \<times> bool \<times> string option" where
  "registry st = (accounts st, loading st, hook_state.error st)"

subsection \<open>loadAccounts\<close>

text \<open>\<open>{ ...a }\<close> and \<open>{ ...a, usage: u }\<close> for an \<open>AccountInfo\<close> \<open>a\<close>.\<close>

definition spread :: "AccountInfo \<Rightarrow> UsageInfo option \<Rightarrow> AccountWithUsage" where
  "spread a u = AccountInfo.extend a \<lparr>usage = u, usageLoading = None\<rparr>"

text \<open>
  \<open>new Map(prev.map((a) => [a.id, a.usage]))\<close>: entries are inserted in list order, a
  later entry replacing an earlier one with the same key. \<open>Map.get\<close> yields
  \<open>undefined\<close> for a missing key and the stored value (which may be \<open>undefined\<close>)
  otherwise.
\<close>

definition usageMap :: "AccountWithUsage list \<Rightarrow> (string \<rightharpoonup> UsageInfo option)" where
  "usageMap prev = fold (\<lambda>a m. m(id' a \<mapsto> usage a)) prev Map.empty"

definition map_get :: "(string \<rightharpoonup> UsageInfo option) \<Rightarrow> string \<Rightarrow> UsageInfo option" where
  "map_get m k = (case m k of None \<Rightarrow> None | Some u \<Rightarrow> u)"

definition preserve_usage :: "AccountInfo list \<Rightarrow> AccountWithUsage list \<Rightarrow> AccountWithUsage list" where
  "preserve_usage accountList prev =
     (let m = usageMap prev in map (\<lambda>a. spread a (map_get m (id' a))) accountList)"

definition loadAccounts :: "bool \<Rightarrow> environment \<Rightarrow> hook_state \<Rightarrow> hook_state" where
  "loadAccounts preserveUsage env st =
     (if \<not> isTauri env then st\<lparr>loading := False\<rparr>
      else
        let st1 = st\<lparr>loading := True, hook_state.error := None,
                      invoked := invoked st @ [ListAccounts]\<rparr>
        in (case list_accounts env of
              Inr accountList \<Rightarrow>
                (if preserveUsage
                 then st1\<lparr>accounts := preserve_usage accountList (accounts st1)\<rparr>
                 else st1\<lparr>accounts := map (\<lambda>a. spread a None) accountList\<rparr>)
                \<lparr>loading := False\<rparr>
            | Inl err \<Rightarrow>
                st1\<lparr>hook_state.error := Some (err_message err), loading := False\<rparr>))"

subsection \<open>refreshUsage\<close>

text \<open>The updater given to \<open>setAccounts\<close>; \<open>find\<close> yields the first match.\<close>

definition overlay_usage :: "UsageInfo list \<Rightarrow> AccountWithUsage list \<Rightarrow> AccountWithUsage list" where
  "overlay_usage usageList prev =
     map (\<lambda>account.
            account\<lparr>usage := find (\<lambda>u. account_id u = id' account) usageList,
                    usageLoading := Some False\<rparr>) prev"

definition refreshUsage :: "environment \<Rightarrow> hook_state \<Rightarrow> hook_state \<times> (thrown + unit)" where
  "refreshUsage env st =
     (let st1 = st\<lparr>invoked := invoked st @ [RefreshAllAccountsUsage]\<rparr>
      in case refresh_all_accounts_usage env of
           Inr usageList \<Rightarrow>
             (st1\<lparr>accounts := overlay_usage usageList (accounts st1)\<rparr>, Inr ())
         | Inl err \<Rightarrow>
             (st1\<lparr>console := console st1 @ [(''Failed to refresh usage:'', err)]\<rparr>, Inl err))"

subsection \<open>refreshSingleUsage\<close>

text \<open>
  The function suspends at its \<open>await\<close>. What runs before the suspension is
  \<open>refreshSingleUsage_start\<close>; what runs when the promise settles, on whatever the
  state then is, is \<open>refreshSingleUsage_settle\<close>. \<open>refreshSingleUsage\<close> is the run
  with nothing in between.
\<close>

definition mark_loading :: "string \<Rightarrow> AccountWithUsage list \<Rightarrow> AccountWithUsage list" where
  "mark_loading accountId prev =
     map (\<lambda>a. if id' a = accountId then a\<lparr>usageLoading := Some True\<rparr> else a) prev"

definition store_usage :: "string \<Rightarrow> UsageInfo \<Rightarrow> AccountWithUsage list \<Rightarrow> AccountWithUsage list" where
  "store_usage accountId u prev =
     map (\<lambda>a. if id' a = accountId then a\<lparr>usage := Some u, usageLoading := Some False\<rparr> else a) prev"

definition clear_loading :: "string \<Rightarrow> AccountWithUsage list \<Rightarrow> AccountWithUsage list" where
  "clear_loading accountId prev =
     map (\<lambda>a. if id' a = accountId then a\<lparr>usageLoading := Some False\<rparr> else a) prev"

definition refreshSingleUsage_start :: "string \<Rightarrow> hook_state \<Rightarrow> hook_state" where
  "refreshSingleUsage_start accountId st =
     st\<lparr>accounts := mark_loading accountId (accounts st),
        invoked := invoked st @ [GetUsage accountId]\<rparr>"

definition refreshSingleUsage_settle ::
  "string \<Rightarrow> thrown + UsageInfo \<Rightarrow> hook_state \<Rightarrow> hook_state \<times> (thrown + unit)" where
  "refreshSingleUsage_settle accountId response st =
     (case response of
        Inr u \<Rightarrow> (st\<lparr>accounts := store_usage accountId u (accounts st)\<rparr>, Inr ())
      | Inl err \<Rightarrow>
          (st\<lparr>console := console st @ [(''Failed to refresh single usage:'', err)],
              accounts := clear_loading accountId (accounts st)\<rparr>, Inl err))"

definition refreshSingleUsage ::
  "environment \<Rightarrow> string \<Rightarrow> hook_state \<Rightarrow> hook_state \<times> (thrown + unit)" where
  "refreshSingleUsage env accountId st =
     refreshSingleUsage_settle accountId (get_usage env accountId)
       (refreshSingleUsage_start accountId st)"

subsection \<open>The mutating operations\<close>

text \<open>
  Each one awaits its command first; a rejection leaves the \<open>try\<close> block at once
  and is thrown again as it is. \<open>loadAccounts()\<close> is \<open>loadAccounts(false)\<close>.
\<close>

definition switchAccount ::
  "environment \<Rightarrow> string \<Rightarrow> hook_state \<Rightarrow> hook_state \<times> (thrown + unit)" where
  "switchAccount env accountId st =
     (let st1 = st\<lparr>invoked := invoked st @ [SwitchAccount accountId]\<rparr>
      in case switch_account env accountId of
           Inl err \<Rightarrow> (st1, Inl err)
         | Inr _ \<Rightarrow> (loadAccounts True env st1, Inr ()))"

definition deleteAccount ::
  "environment \<Rightarrow> string \<Rightarrow> hook_state \<Rightarrow> hook_state \<times> (thrown + unit)" where
  "deleteAccount env accountId st =
     (let st1 = st\<lparr>invoked := invoked st @ [DeleteAccount accountId]\<rparr>
      in case delete_account env accountId of
           Inl err \<Rightarrow> (st1, Inl err)
         | Inr _ \<Rightarrow> (loadAccounts False env st1, Inr ()))"

definition renameAccount ::
  "environment \<Rightarrow> string \<Rightarrow> string \<Rightarrow> hook_state \<Rightarrow> hook_state \<times> (thrown + unit)" where
  "renameAccount env accountId newName st =
     (let st1 = st\<lparr>invoked := invoked st @ [RenameAccount accountId newName]\<rparr>
      in case rename_account env accountId newName of
           Inl err \<Rightarrow> (st1, Inl err)
         | Inr _ \<Rightarrow> (loadAccounts True env st1, Inr ()))"

definition importFromFile ::
  "environment \<Rightarrow> string \<Rightarrow> string \<Rightarrow> hook_state \<Rightarrow> hook_state \<times> (thrown + unit)" where
  "importFromFile env path nm st =
     (let st1 = st\<lparr>invoked := invoked st @ [AddAccountFromFile path nm]\<rparr>
      in case add_account_from_file env path nm of
           Inl err \<Rightarrow> (st1, Inl err)
         | Inr _ \<Rightarrow> refreshUsage env (loadAccounts False env st1))"

subsection \<open>The login operations\<close>

definition startOAuthLogin ::
  "environment \<Rightarrow> string \<Rightarrow> hook_state \<Rightarrow> hook_state \<times> (thrown + OAuthLoginInfo)" where
  "startOAuthLogin env accountName st =
     (st\<lparr>invoked := invoked st @ [StartLogin accountName]\<rparr>, start_login env accountName)"

definition completeOAuthLogin ::
  "environment \<Rightarrow> hook_state \<Rightarrow> hook_state \<times> (thrown + AccountInfo)" where
  "completeOAuthLogin env st =
     (let st1 = st\<lparr>invoked := invoked st @ [CompleteLogin]\<rparr>
      in case complete_login env of
           Inl err \<Rightarrow> (st1, Inl err)
         | Inr account \<Rightarrow>
             (case refreshUsage env (loadAccounts False env st1) of
                (st2, Inl err) \<Rightarrow> (st2, Inl err)
              | (st2, Inr _) \<Rightarrow> (st2, Inr account)))"

text \<open>\<open>cancelOAuthLogin\<close> catches a rejection and logs it: its promise always resolves.\<close>

definition cancelOAuthLogin :: "environment \<Rightarrow> hook_state \<Rightarrow> hook_state" where
  "cancelOAuthLogin env st =
     (let st1 = st\<lparr>invoked := invoked st @ [CancelLogin]\<rparr>
      in case cancel_login env of
           Inr _ \<Rightarrow> st1
         | Inl err \<Rightarrow> st1\<lparr>console := console st1 @ [(''Failed to cancel login:'', err)]\<rparr>)"

section \<open>The add-account modal\<close>

text \<open>
  The \<open>useState\<close> cells of \<open>AddAccountModal\<close>, and \<open>isOpen\<close>, the prop the
  application keeps in \<open>isAddModalOpen\<close> and clears in \<open>onClose\<close>. The props
  \<open>onStartOAuth\<close>, \<open>onCompleteOAuth\<close> and \<open>onCancelOAuth\<close> are bound by the
  application to \<open>startOAuthLogin\<close>, \<open>completeOAuthLogin\<close> and
  \<open>cancelOAuthLogin\<close>, so the modal's handlers act on the pair of the modal's state
  and the hook's.
\<close>

datatype Tab = oauth | import

record modal =
  isOpen :: bool
  activeTab :: Tab
  name :: string
  filePath :: string
  loading :: bool
  error :: "string option"
  oauthPending :: bool

definition initial_modal :: modal where
  "initial_modal =
     \<lparr>isOpen = False, activeTab = oauth, name = [], filePath = [], loading = False,
      error = None, oauthPending = False\<rparr>"

definition isPrimaryDisabled :: "modal \<Rightarrow> bool" where
  "isPrimaryDisabled m = (loading m \<or> (activeTab m = oauth \<and> oauthPending m))"

definition resetForm :: "modal \<Rightarrow> modal" where
  "resetForm m =
     m\<lparr>name := [], filePath := [], error := None, loading := False, oauthPending := False\<rparr>"

text \<open>
  \<open>handleClose\<close> reads \<open>oauthPending\<close> from the render that created it.
  \<open>handleClose_of pending\<close> is the closure of a render in which the cell held
  \<open>pending\<close>; a click on the close or the cancel button runs the closure of the current
  render, which is \<open>handleClose\<close>.
\<close>

definition handleClose_of ::
  "bool \<Rightarrow> environment \<Rightarrow> modal \<times> hook_state \<Rightarrow> modal \<times> hook_state" where
  "handleClose_of pending env s =
     (case s of (m, h) \<Rightarrow>
        ((resetForm m)\<lparr>isOpen := False\<rparr>, if pending then cancelOAuthLogin env h else h))"

definition handleClose :: "environment \<Rightarrow> modal \<times> hook_state \<Rightarrow> modal \<times> hook_state" where
  "handleClose env s = handleClose_of (oauthPending (fst s)) env s"

text \<open>
  \<open>String.prototype.trim\<close> removes the white space and line terminators at both ends.
  A \<open>char\<close> stands for a code unit below 256; of the code points the language counts
  as white space those are U+0009 to U+000D, U+0020 and U+00A0. The empty string is the
  only falsy string.
\<close>

definition isWhiteSpace :: "char \<Rightarrow> bool" where
  "isWhiteSpace c = (of_char c \<in> {9, 10, 11, 12, 13, 32, 160 :: nat})"

definition trim :: "string \<Rightarrow> string" where
  "trim s = rev (dropWhile isWhiteSpace (rev (dropWhile isWhiteSpace s)))"

text \<open>The \<open>catch\<close> block of \<open>handleOAuthLogin\<close>.\<close>

definition oauth_failed :: "thrown \<Rightarrow> modal \<Rightarrow> modal" where
  "oauth_failed err m =
     m\<lparr>error := Some (err_message err), loading := False, oauthPending := False\<rparr>"

text \<open>
  \<open>handleOAuthLogin\<close>, run from the click to its end with nothing in between. The
  \<open>handleClose\<close> it calls after completion is the one of the render of the click.
\<close>

definition handleOAuthLogin ::
  "environment \<Rightarrow> modal \<times> hook_state \<Rightarrow> modal \<times> hook_state" where
  "handleOAuthLogin env s =
     (case s of (m, h) \<Rightarrow>
        if trim (name m) = [] then (m\<lparr>error := Some ''Please enter an account name''\<rparr>, h)
        else
          let m1 = m\<lparr>loading := True, error := None\<rparr>
          in (case startOAuthLogin env (trim (name m)) h of
                (h1, Inl err) \<Rightarrow> (oauth_failed err m1, h1)
              | (h1, Inr info) \<Rightarrow>
                  let m2 = m1\<lparr>oauthPending := True, loading := False\<rparr>
                  in (case openUrl env (auth_url info) of
                        Inl err \<Rightarrow> (oauth_failed err m2, h1)
                      | Inr _ \<Rightarrow>
                          (case completeOAuthLogin env h1 of
                             (h2, Inl err) \<Rightarrow> (oauth_failed err m2, h2)
                           | (h2, Inr _) \<Rightarrow> handleClose_of (oauthPending m) env (m2, h2)))))"

text \<open>The \<open>onClick\<close> of the tab button for \<open>tab\<close>.\<close>

definition tab_onClick ::
  "Tab \<Rightarrow> environment \<Rightarrow> modal \<times> hook_state \<Rightarrow> modal \<times> hook_state" where
  "tab_onClick tab env s =
     (case s of (m, h) \<Rightarrow>
        if tab = import \<and> oauthPending m
        then (m\<lparr>oauthPending := False, loading := False, activeTab := tab, error := None\<rparr>,
              cancelOAuthLogin env h)
        else (m\<lparr>activeTab := tab, error := None\<rparr>, h))"

section \<open>Concrete inputs\<close>

text \<open>
  Concrete inputs on which the properties below are evaluated: account \<open>A\<close> is
  active, \<open>B\<close> is not, and both carry a snapshot.
\<close>

definition account_of :: "string \<Rightarrow> bool \<Rightarrow> AccountInfo" where
  "account_of i active =
     \<lparr>id' = i, AccountInfo.name = i, email = None, AccountInfo.plan_type = None,
      auth_mode = chat_gpt, is_active = active, created_at = ''2025-01-01T00:00:00Z'',
      last_used_at = None\<rparr>"

definition usage_of :: "string \<Rightarrow> number \<Rightarrow> UsageInfo" where
  "usage_of i p =
     \<lparr>account_id = i, UsageInfo.plan_type = None, primary_used_percent = Some p,
      primary_window_minutes = None, primary_resets_at = None,
      secondary_used_percent = None, secondary_window_minutes = None,
      secondary_resets_at = None, has_credits = None, unlimited_credits = None,
      credits_balance = None, UsageInfo.error = None\<rparr>"

definition two_accounts :: hook_state where
  "two_accounts =
     \<lparr>accounts = [spread (account_of ''A'' True) (Some (usage_of ''A'' 40)),
                  spread (account_of ''B'' False) (Some (usage_of ''B'' 70))],
      hook_state.loading = False, hook_state.error = None, invoked = [], console = []\<rparr>"

text \<open>
  An environment in which every command resolves: the store lists \<open>B\<close> (now active)
  and a new account \<open>C\<close>, and the batched usage response reports \<open>A\<close> only.
\<close>

definition answers :: environment where
  "answers =
     \<lparr>isTauri = True,
      list_accounts = Inr [account_of ''B'' True, account_of ''C'' False],
      refresh_all_accounts_usage = Inr [usage_of ''A'' 55],
      get_usage = (\<lambda>i. Inr (usage_of i 10)),
      switch_account = (\<lambda>i. Inr ()),
      delete_account = (\<lambda>i. Inr ()),
      rename_account = (\<lambda>i n. Inr ()),
      add_account_from_file = (\<lambda>p n. Inr (account_of n False)),
      start_login = (\<lambda>n. Inr \<lparr>auth_url = ''https://auth.example/login'', callback_port = 1455\<rparr>),
      complete_login = Inr (account_of ''C'' False),
      cancel_login = Inr (),
      openUrl = (\<lambda>u. Inr ())\<rparr>"

definition store_down :: thrown where
  "store_down = JsValue ''account store unavailable''"

text \<open>An environment in which the store refuses every mutating command.\<close>

definition refusing :: environment where
  "refusing =
     answers\<lparr>switch_account := (\<lambda>i. Inl store_down),
             delete_account := (\<lambda>i. Inl store_down),
             rename_account := (\<lambda>i n. Inl store_down),
             add_account_from_file := (\<lambda>p n. Inl store_down)\<rparr>"

text \<open>
  Two states of the open modal: waiting for the browser login of account \<open>Work\<close>,
  and with a name of two spaces typed in.
\<close>

definition waiting :: modal where
  "waiting = initial_modal\<lparr>isOpen := True, name := ''Work'', oauthPending := True\<rparr>"

definition blank_name :: modal where
  "blank_name = initial_modal\<lparr>isOpen := True, name := ''  ''\<rparr>"

section \<open>Properties of the registry\<close>

lemmas example_defs =
  answers_def two_accounts_def account_of_def usage_of_def store_down_def spread_def
  AccountInfo.defs refusing_def waiting_def blank_name_def initial_modal_def

lemma overlay_usage_loading:
  "a \<in> set (overlay_usage usageList prev) \<Longrightarrow> usageLoading a = Some False"
  by (auto simp: overlay_usage_def)

subsection \<open>Facts about the list functions\<close>

lemma find_SomeD: "find P xs = Some x \<Longrightarrow> x \<in> set xs \<and> P x"
  by (induction xs) (auto split: if_splits)

lemma in_map_cases:
  assumes "a \<in> set (map (\<lambda>x. if P x then f x else x) xs)"
  obtains x where "x \<in> set xs" "P x" "a = f x" | "a \<in> set xs" "\<not> P a"
  using assms by (induction xs) (auto split: if_splits)

lemma truncate_spread: "AccountInfo.truncate (spread a u) = a"
  by (simp add: spread_def AccountInfo.defs)

lemma id_spread: "id' (spread a u) = id' a"
  by (simp add: spread_def AccountInfo.defs)

lemma usage_spread: "usage (spread a u) = u" "usageLoading (spread a u) = None"
  by (simp_all add: spread_def AccountInfo.defs)

subsection \<open>Facts about the usage map\<close>

lemma fold_usage_lookup:
  "fold (\<lambda>a m. m(id' a \<mapsto> usage a)) prev m0 k =
     (case find (\<lambda>p. id' p = k) (rev prev) of None \<Rightarrow> m0 k | Some p \<Rightarrow> Some (usage p))"
proof (induction prev rule: rev_induct)
  case Nil
  show ?case by simp
next
  case (snoc x xs)
  show ?case using snoc.IH by (simp split: option.splits)
qed

lemma map_get_usageMap:
  "map_get (usageMap prev) k =
     (case find (\<lambda>p. id' p = k) (rev prev) of None \<Rightarrow> None | Some p \<Rightarrow> usage p)"
  by (simp add: map_get_def usageMap_def fold_usage_lookup split: option.splits)

lemma find_rev_absent:
  "k \<notin> id' ` set prev \<Longrightarrow> find (\<lambda>p. id' p = k) (rev prev) = None"
  by (auto simp: find_None_iff)

lemma find_rev_distinct:
  assumes "distinct (map id' prev)" and "o' \<in> set prev"
  shows "find (\<lambda>x. id' x = id' o') (rev prev) = Some o'"
proof -
  obtain x where x: "find (\<lambda>x. id' x = id' o') (rev prev) = Some x"
    using assms(2) by (cases "find (\<lambda>x. id' x = id' o') (rev prev)") (auto simp: find_None_iff)
  then have "x \<in> set prev" and "id' x = id' o'"
    using find_SomeD [OF x] by simp_all
  with assms have "x = o'"
    by (meson distinct_map inj_onD)
  with x show ?thesis by simp
qed

lemma accounts_loadAccounts_preserve:
  assumes "isTauri env" and "list_accounts env = Inr accountList"
  shows "accounts (loadAccounts True env st) = preserve_usage accountList (accounts st)"
  using assms by (simp add: loadAccounts_def Let_def)

subsection \<open>Facts about the updaters\<close>

lemma find_None_absent:
  "k \<notin> account_id ` set usageList \<Longrightarrow> find (\<lambda>u. account_id u = k) usageList = None"
  by (auto simp: find_None_iff)

lemma accounts_refreshUsage:
  "refresh_all_accounts_usage env = Inr usageList \<Longrightarrow>
     accounts (fst (refreshUsage env st)) = overlay_usage usageList (accounts st)"
  by (simp add: refreshUsage_def Let_def)

lemma truncate_overlay:
  "map AccountInfo.truncate (overlay_usage usageList prev) = map AccountInfo.truncate prev"
  by (simp add: overlay_usage_def AccountInfo.defs)

lemma overlay_usage_absent:
  "a \<in> set (overlay_usage usageList prev) \<Longrightarrow> id' a \<notin> account_id ` set usageList \<Longrightarrow>
     usage a = None"
  by (auto simp: overlay_usage_def find_None_absent)

lemma length_updaters:
  "length (mark_loading i prev) = length prev"
  "length (store_usage i u prev) = length prev"
  "length (clear_loading i prev) = length prev"
  by (simp_all add: mark_loading_def store_usage_def clear_loading_def)

lemma truncate_updaters:
  "map AccountInfo.truncate (mark_loading i prev) = map AccountInfo.truncate prev"
  "map AccountInfo.truncate (store_usage i u prev) = map AccountInfo.truncate prev"
  "map AccountInfo.truncate (clear_loading i prev) = map AccountInfo.truncate prev"
  by (simp_all add: mark_loading_def store_usage_def clear_loading_def AccountInfo.defs)

lemma others_untouched:
  assumes "k < length prev" and "id' (prev ! k) \<noteq> i"
  shows "mark_loading i prev ! k = prev ! k"
    and "store_usage i u prev ! k = prev ! k"
    and "clear_loading i prev ! k = prev ! k"
  using assms by (simp_all add: mark_loading_def store_usage_def clear_loading_def)

lemma absent_untouched:
  assumes "i \<notin> id' ` set prev"
  shows "mark_loading i prev = prev"
    and "store_usage i u prev = prev"
    and "clear_loading i prev = prev"
  using assms
  by (induction prev) (auto simp: mark_loading_def store_usage_def clear_loading_def)

lemma mark_loading_sets:
  assumes "a \<in> set (mark_loading i prev)" and "id' a = i"
  shows "usageLoading a = Some True"
  using assms(1) unfolding mark_loading_def
proof (cases rule: in_map_cases)
  case (1 x) then show ?thesis by simp
next
  case 2 with assms(2) show ?thesis by simp
qed

lemma store_usage_sets:
  assumes "a \<in> set (store_usage i u prev)" and "id' a = i"
  shows "usage a = Some u \<and> usageLoading a = Some False"
  using assms(1) unfolding store_usage_def
proof (cases rule: in_map_cases)
  case (1 x) then show ?thesis by simp
next
  case 2 with assms(2) show ?thesis by simp
qed

lemma clear_loading_sets:
  assumes "a \<in> set (clear_loading i prev)" and "id' a = i"
  shows "usageLoading a = Some False"
  using assms(1) unfolding clear_loading_def
proof (cases rule: in_map_cases)
  case (1 x) then show ?thesis by simp
next
  case 2 with assms(2) show ?thesis by simp
qed

lemma usage_clear_loading: "map usage (clear_loading i prev) = map usage prev"
  by (simp add: clear_loading_def)

lemma usage_mark_loading: "map usage (mark_loading i prev) = map usage prev"
  by (simp add: mark_loading_def)

lemma accounts_settle:
  "accounts (fst (refreshSingleUsage_settle i (Inr u) st)) = store_usage i u (accounts st)"
  "accounts (fst (refreshSingleUsage_settle i (Inl err) st)) = clear_loading i (accounts st)"
  "snd (refreshSingleUsage_settle i (Inr u) st) = Inr ()"
  "snd (refreshSingleUsage_settle i (Inl err) st) = Inl err"
  by (simp_all add: refreshSingleUsage_settle_def)

lemma accounts_start:
  "accounts (refreshSingleUsage_start i st) = mark_loading i (accounts st)"
  by (simp add: refreshSingleUsage_start_def)

subsection \<open>Facts about the operations\<close>

lemma registry_invoked [simp]: "registry (st\<lparr>invoked := x\<rparr>) = registry st"
  by (simp add: registry_def)

lemma invoked_loadAccounts:
  "invoked (loadAccounts b env st) = (if isTauri env then invoked st @ [ListAccounts] else invoked st)"
  by (simp add: loadAccounts_def Let_def split: sum.splits)

lemma invoked_refreshUsage:
  "invoked (fst (refreshUsage env st)) = invoked st @ [RefreshAllAccountsUsage]"
  by (simp add: refreshUsage_def Let_def split: sum.splits)

lemma switchAccount_cases:
  "(switch_account env accountId = Inl err \<longrightarrow>
       snd (switchAccount env accountId st) = Inl err
     \<and> registry (fst (switchAccount env accountId st)) = registry st
     \<and> invoked (fst (switchAccount env accountId st)) = invoked st @ [SwitchAccount accountId])
   \<and> (switch_account env accountId = Inr () \<longrightarrow>
       switchAccount env accountId st
         = (loadAccounts True env (st\<lparr>invoked := invoked st @ [SwitchAccount accountId]\<rparr>), Inr ())
     \<and> (isTauri env \<longrightarrow> invoked (fst (switchAccount env accountId st))
           = invoked st @ [SwitchAccount accountId, ListAccounts]))"
  by (simp add: switchAccount_def Let_def invoked_loadAccounts)

lemma renameAccount_cases:
  "(rename_account env accountId newName = Inl err \<longrightarrow>
       snd (renameAccount env accountId newName st) = Inl err
     \<and> registry (fst (renameAccount env accountId newName st)) = registry st
     \<and> invoked (fst (renameAccount env accountId newName st))
         = invoked st @ [RenameAccount accountId newName])
   \<and> (rename_account env accountId newName = Inr () \<longrightarrow>
       renameAccount env accountId newName st
         = (loadAccounts True env
              (st\<lparr>invoked := invoked st @ [RenameAccount accountId newName]\<rparr>), Inr ())
     \<and> (isTauri env \<longrightarrow> invoked (fst (renameAccount env accountId newName st))
           = invoked st @ [RenameAccount accountId newName, ListAccounts]))"
  by (simp add: renameAccount_def Let_def invoked_loadAccounts)

lemma deleteAccount_cases:
  "(delete_account env accountId = Inl err \<longrightarrow>
       snd (deleteAccount env accountId st) = Inl err
     \<and> registry (fst (deleteAccount env accountId st)) = registry st
     \<and> invoked (fst (deleteAccount env accountId st)) = invoked st @ [DeleteAccount accountId])
   \<and> (delete_account env accountId = Inr () \<longrightarrow>
       deleteAccount env accountId st
         = (loadAccounts False env (st\<lparr>invoked := invoked st @ [DeleteAccount accountId]\<rparr>), Inr ())
     \<and> (isTauri env \<longrightarrow> invoked (fst (deleteAccount env accountId st))
           = invoked st @ [DeleteAccount accountId, ListAccounts]))"
  by (simp add: deleteAccount_def Let_def invoked_loadAccounts)

lemma importFromFile_cases:
  "(add_account_from_file env path nm = Inl err \<longrightarrow>
       snd (importFromFile env path nm st) = Inl err
     \<and> registry (fst (importFromFile env path nm st)) = registry st
     \<and> invoked (fst (importFromFile env path nm st)) = invoked st @ [AddAccountFromFile path nm])
   \<and> (add_account_from_file env path nm = Inr account \<longrightarrow>
       importFromFile env path nm st
         = refreshUsage env
             (loadAccounts False env (st\<lparr>invoked := invoked st @ [AddAccountFromFile path nm]\<rparr>))
     \<and> (isTauri env \<longrightarrow> invoked (fst (importFromFile env path nm st))
           = invoked st @ [AddAccountFromFile path nm, ListAccounts, RefreshAllAccountsUsage]))"
  by (simp add: importFromFile_def Let_def invoked_loadAccounts invoked_refreshUsage)

lemma invoked_cancelOAuthLogin: "invoked (cancelOAuthLogin env h) = invoked h @ [CancelLogin]"
  by (simp add: cancelOAuthLogin_def Let_def split: sum.splits)

lemma trim_blank:
  assumes "\<forall>c \<in> set s. isWhiteSpace c"
  shows "trim s = []"
proof -
  have nothing_left: "dropWhile isWhiteSpace s = []"
    using assms by simp
  show ?thesis
    unfolding trim_def nothing_left by simp
qed

section \<open>The claims\<close>

text \<open>
  C1, as stated: \<open>refreshUsage\<close> leaves the snapshot of every account whose id does not
  appear in the response unchanged. It does not: in the registry of two accounts, \<open>B\<close>
  holds a snapshot, the response reports \<open>A\<close> only, and afterwards \<open>B\<close> holds none.
\<close>

theorem refreshUsage_clears_snapshot_of_absent_id:
  "refresh_all_accounts_usage answers = Inr [usage_of ''A'' 55]
   \<and> id' (accounts two_accounts ! 1) = ''B''
   \<and> usage (accounts two_accounts ! 1) = Some (usage_of ''B'' 70)
   \<and> id' (accounts (fst (refreshUsage answers two_accounts)) ! 1) = ''B''
   \<and> usage (accounts (fst (refreshUsage answers two_accounts)) ! 1) = None"
  by (simp add: example_defs refreshUsage_def overlay_usage_def)

text \<open>
  C1, amended. For every registry state and every batched usage response,
  \<open>refreshUsage\<close> keeps every account entry in its place with its account fields
  unchanged, and an account whose id does not appear in the response has no snapshot
  afterwards: the updater stores what \<open>find\<close> returned, which is \<open>undefined\<close> for
  such an id.
\<close>

theorem refreshUsage_absent_ids_lose_snapshot:
  assumes "refresh_all_accounts_usage env = Inr usageList"
  shows "map AccountInfo.truncate (accounts (fst (refreshUsage env st)))
           = map AccountInfo.truncate (accounts st)
       \<and> (\<forall>a \<in> set (accounts (fst (refreshUsage env st))).
             id' a \<notin> account_id ` set usageList \<longrightarrow> usage a = None)"
  using assms by (simp add: accounts_refreshUsage truncate_overlay overlay_usage_absent)

theorem refreshUsage_absent_ids_lose_snapshot_witness:
  "refresh_all_accounts_usage answers = Inr [usage_of ''A'' 55]
   \<and> ''B'' \<notin> account_id ` set [usage_of ''A'' 55]
   \<and> map id' (accounts (fst (refreshUsage answers two_accounts))) = [''A'', ''B'']
   \<and> map usage (accounts (fst (refreshUsage answers two_accounts)))
        = [Some (usage_of ''A'' 55), None]"
  using refreshUsage_absent_ids_lose_snapshot [of answers "[usage_of ''A'' 55]" two_accounts]
  by (simp add: example_defs refreshUsage_def overlay_usage_def)

text \<open>
  C2. For every prior registry and every account list the gateway returns,
  \<open>loadAccounts\<close> with \<open>preserveUsage = true\<close> produces exactly the returned accounts,
  in the returned order (so an id only in the old list is dropped); an entry whose id is
  only in the new list has no snapshot; an entry whose id is in both carries the old
  snapshot of that id, and no entry carries a loading flag. The snapshot carried is the
  one of the last old entry with that id, which is the old entry with that id when ids
  identify the entries of the registry.
\<close>

theorem loadAccounts_preserveUsage_carries_snapshots:
  assumes "isTauri env" and "list_accounts env = Inr accountList"
  shows "map AccountInfo.truncate (accounts (loadAccounts True env st)) = accountList
       \<and> (\<forall>n \<in> set (accounts (loadAccounts True env st)).
            usageLoading n = None
          \<and> usage n = (case find (\<lambda>p. id' p = id' n) (rev (accounts st)) of
                         None \<Rightarrow> None | Some p \<Rightarrow> usage p)
          \<and> (id' n \<notin> id' ` set (accounts st) \<longrightarrow> usage n = None))
       \<and> (distinct (map id' (accounts st)) \<longrightarrow>
            (\<forall>n \<in> set (accounts (loadAccounts True env st)). \<forall>p \<in> set (accounts st).
               id' n = id' p \<longrightarrow> usage n = usage p))"
proof -
  let ?new = "accounts (loadAccounts True env st)"
  have new: "?new = map (\<lambda>a. spread a (map_get (usageMap (accounts st)) (id' a))) accountList"
    using assms by (simp add: accounts_loadAccounts_preserve preserve_usage_def)
  have 1: "map AccountInfo.truncate ?new = accountList"
    by (simp add: new truncate_spread o_def)
  have 2: "usageLoading n = None \<and> usage n = (case find (\<lambda>p. id' p = id' n) (rev (accounts st)) of
                         None \<Rightarrow> None | Some p \<Rightarrow> usage p)" if "n \<in> set ?new" for n
    using that by (auto simp: new usage_spread id_spread map_get_usageMap)
  have 3: "usage n = None" if "n \<in> set ?new" "id' n \<notin> id' ` set (accounts st)" for n
    using 2[OF that(1)] find_rev_absent[OF that(2)] by simp
  have 4: "usage n = usage o'" if "distinct (map id' (accounts st))" "n \<in> set ?new"
      "o' \<in> set (accounts st)" "id' n = id' o'" for n o'
    using 2[OF that(2)] find_rev_distinct[OF that(1,3)] that(4) by simp
  show ?thesis using 1 2 3 4 by blast
qed

theorem loadAccounts_preserveUsage_carries_snapshots_witness:
  "isTauri answers
   \<and> list_accounts answers = Inr [account_of ''B'' True, account_of ''C'' False]
   \<and> map id' (accounts two_accounts) = [''A'', ''B'']
   \<and> distinct (map id' (accounts two_accounts))
   \<and> map usage (accounts two_accounts) = [Some (usage_of ''A'' 40), Some (usage_of ''B'' 70)]
   \<and> accounts (loadAccounts True answers two_accounts)
       = [spread (account_of ''B'' True) (Some (usage_of ''B'' 70)),
          spread (account_of ''C'' False) None]"
  using loadAccounts_preserveUsage_carries_snapshots
    [of answers "[account_of ''B'' True, account_of ''C'' False]" two_accounts]
  by (simp add: example_defs loadAccounts_def preserve_usage_def usageMap_def map_get_def)

text \<open>
  C3. Each of \<open>switchAccount\<close>, \<open>renameAccount\<close>, \<open>deleteAccount\<close> and
  \<open>importFromFile\<close> issues its mutating command first. When the command is rejected,
  the operation throws the same error, has issued nothing else, and the registry (the
  accounts, the loading flag and the error cell) is as before the call. When it resolves,
  the operation goes on with a reload: \<open>switchAccount\<close> and \<open>renameAccount\<close> with
  \<open>preserveUsage = true\<close>, \<open>deleteAccount\<close> and \<open>importFromFile\<close> with
  \<open>preserveUsage = false\<close>, and \<open>importFromFile\<close> then runs \<open>refreshUsage\<close> on the
  reloaded registry.
\<close>

theorem mutations_reload_on_success_and_propagate_failure:
  "(switch_account env accountId = Inl err \<longrightarrow>
       snd (switchAccount env accountId st) = Inl err
     \<and> registry (fst (switchAccount env accountId st)) = registry st
     \<and> invoked (fst (switchAccount env accountId st)) = invoked st @ [SwitchAccount accountId])
   \<and> (switch_account env accountId = Inr () \<longrightarrow>
       switchAccount env accountId st
         = (loadAccounts True env (st\<lparr>invoked := invoked st @ [SwitchAccount accountId]\<rparr>), Inr ())
     \<and> (isTauri env \<longrightarrow> invoked (fst (switchAccount env accountId st))
           = invoked st @ [SwitchAccount accountId, ListAccounts]))
   \<and> (rename_account env accountId newName = Inl err \<longrightarrow>
       snd (renameAccount env accountId newName st) = Inl err
     \<and> registry (fst (renameAccount env accountId newName st)) = registry st
     \<and> invoked (fst (renameAccount env accountId newName st))
         = invoked st @ [RenameAccount accountId newName])
   \<and> (rename_account env accountId newName = Inr () \<longrightarrow>
       renameAccount env accountId newName st
         = (loadAccounts True env
              (st\<lparr>invoked := invoked st @ [RenameAccount accountId newName]\<rparr>), Inr ())
     \<and> (isTauri env \<longrightarrow> invoked (fst (renameAccount env accountId newName st))
           = invoked st @ [RenameAccount accountId newName, ListAccounts]))
   \<and> (delete_account env accountId = Inl err \<longrightarrow>
       snd (deleteAccount env accountId st) = Inl err
     \<and> registry (fst (deleteAccount env accountId st)) = registry st
     \<and> invoked (fst (deleteAccount env accountId st)) = invoked st @ [DeleteAccount accountId])
   \<and> (delete_account env accountId = Inr () \<longrightarrow>
       deleteAccount env accountId st
         = (loadAccounts False env (st\<lparr>invoked := invoked st @ [DeleteAccount accountId]\<rparr>), Inr ())
     \<and> (isTauri env \<longrightarrow> invoked (fst (deleteAccount env accountId st))
           = invoked st @ [DeleteAccount accountId, ListAccounts]))
   \<and> (add_account_from_file env path nm = Inl err \<longrightarrow>
       snd (importFromFile env path nm st) = Inl err
     \<and> registry (fst (importFromFile env path nm st)) = registry st
     \<and> invoked (fst (importFromFile env path nm st)) = invoked st @ [AddAccountFromFile path nm])
   \<and> (add_account_from_file env path nm = Inr account \<longrightarrow>
       importFromFile env path nm st
         = refreshUsage env
             (loadAccounts False env (st\<lparr>invoked := invoked st @ [AddAccountFromFile path nm]\<rparr>))
     \<and> (isTauri env \<longrightarrow> invoked (fst (importFromFile env path nm st))
           = invoked st @ [AddAccountFromFile path nm, ListAccounts, RefreshAllAccountsUsage]))"
  using switchAccount_cases [of env accountId err st]
    renameAccount_cases [of env accountId newName err st]
    deleteAccount_cases [of env accountId err st]
    importFromFile_cases [of env path nm err st account]
  by blast

theorem mutations_reload_on_success_and_propagate_failure_witness:
  "switch_account refusing ''B'' = Inl store_down
   \<and> switchAccount refusing ''B'' two_accounts
       = (two_accounts\<lparr>invoked := [SwitchAccount ''B'']\<rparr>, Inl store_down)
   \<and> renameAccount refusing ''B'' ''Work'' two_accounts
       = (two_accounts\<lparr>invoked := [RenameAccount ''B'' ''Work'']\<rparr>, Inl store_down)
   \<and> deleteAccount refusing ''A'' two_accounts
       = (two_accounts\<lparr>invoked := [DeleteAccount ''A'']\<rparr>, Inl store_down)
   \<and> importFromFile refusing ''/tmp/auth.json'' ''C'' two_accounts
       = (two_accounts\<lparr>invoked := [AddAccountFromFile ''/tmp/auth.json'' ''C'']\<rparr>,
          Inl store_down)
   \<and> isTauri answers \<and> switch_account answers ''B'' = Inr ()
   \<and> accounts (fst (switchAccount answers ''B'' two_accounts))
       = [spread (account_of ''B'' True) (Some (usage_of ''B'' 70)),
          spread (account_of ''C'' False) None]
   \<and> invoked (fst (switchAccount answers ''B'' two_accounts))
       = [SwitchAccount ''B'', ListAccounts]
   \<and> accounts (fst (renameAccount answers ''B'' ''Work'' two_accounts))
       = [spread (account_of ''B'' True) (Some (usage_of ''B'' 70)),
          spread (account_of ''C'' False) None]
   \<and> accounts (fst (deleteAccount answers ''A'' two_accounts))
       = [spread (account_of ''B'' True) None, spread (account_of ''C'' False) None]
   \<and> accounts (fst (importFromFile answers ''/tmp/auth.json'' ''C'' two_accounts))
       = [(spread (account_of ''B'' True) None)\<lparr>usageLoading := Some False\<rparr>,
          (spread (account_of ''C'' False) None)\<lparr>usageLoading := Some False\<rparr>]
   \<and> invoked (fst (importFromFile answers ''/tmp/auth.json'' ''C'' two_accounts))
       = [AddAccountFromFile ''/tmp/auth.json'' ''C'', ListAccounts, RefreshAllAccountsUsage]"
  using mutations_reload_on_success_and_propagate_failure
      [of refusing "''B''" store_down two_accounts "''Work''" "''/tmp/auth.json''" "''C''"
          "account_of ''C'' False"]
    mutations_reload_on_success_and_propagate_failure
      [of answers "''B''" store_down two_accounts "''Work''" "''/tmp/auth.json''" "''C''"
          "account_of ''C'' False"]
  by (simp add: example_defs switchAccount_def renameAccount_def deleteAccount_def
      importFromFile_def loadAccounts_def preserve_usage_def usageMap_def map_get_def
      refreshUsage_def overlay_usage_def)

text \<open>
  C4. For every account id and every registry state, \<open>refreshSingleUsage\<close> first sets
  \<open>usageLoading\<close> to true on the entries with that id. When its request settles, on
  whatever the registry then is, it leaves \<open>usageLoading\<close> false on the entries with
  that id; on success it stores the fetched snapshot there and resolves, on failure it
  changes no snapshot and throws the same error. Neither step changes the length of
  the list, the account fields of any entry, or any entry with another id; and when no
  entry has the id at settlement, the list is unchanged. Entries are found by id.
\<close>

theorem refreshSingleUsage_touches_only_its_id:
  "(\<forall>a \<in> set (accounts (refreshSingleUsage_start accountId st)).
      id' a = accountId \<longrightarrow> usageLoading a = Some True)
   \<and> length (accounts (refreshSingleUsage_start accountId st)) = length (accounts st)
   \<and> map usage (accounts (refreshSingleUsage_start accountId st)) = map usage (accounts st)
   \<and> (\<forall>k < length (accounts st). id' (accounts st ! k) \<noteq> accountId \<longrightarrow>
         accounts (refreshSingleUsage_start accountId st) ! k = accounts st ! k)
   \<and> (\<forall>a \<in> set (accounts (fst (refreshSingleUsage_settle accountId response st'))).
         id' a = accountId \<longrightarrow> usageLoading a = Some False)
   \<and> (response = Inr u \<longrightarrow>
         snd (refreshSingleUsage_settle accountId response st') = Inr ()
       \<and> (\<forall>a \<in> set (accounts (fst (refreshSingleUsage_settle accountId response st'))).
             id' a = accountId \<longrightarrow> usage a = Some u))
   \<and> (response = Inl err \<longrightarrow>
         snd (refreshSingleUsage_settle accountId response st') = Inl err
       \<and> map usage (accounts (fst (refreshSingleUsage_settle accountId response st')))
           = map usage (accounts st'))
   \<and> length (accounts (fst (refreshSingleUsage_settle accountId response st')))
       = length (accounts st')
   \<and> map AccountInfo.truncate (accounts (fst (refreshSingleUsage_settle accountId response st')))
       = map AccountInfo.truncate (accounts st')
   \<and> (\<forall>k < length (accounts st'). id' (accounts st' ! k) \<noteq> accountId \<longrightarrow>
         accounts (fst (refreshSingleUsage_settle accountId response st')) ! k
           = accounts st' ! k)
   \<and> (accountId \<notin> id' ` set (accounts st') \<longrightarrow>
         accounts (fst (refreshSingleUsage_settle accountId response st')) = accounts st')
   \<and> (\<forall>a \<in> set (accounts (fst (refreshSingleUsage env accountId st))).
         id' a = accountId \<longrightarrow> usageLoading a = Some False)
   \<and> snd (refreshSingleUsage env accountId st)
       = (case get_usage env accountId of Inl e \<Rightarrow> Inl e | Inr v \<Rightarrow> Inr ())"
proof -
  let ?settled = "accounts (fst (refreshSingleUsage_settle accountId response st'))"
  have start: "\<forall>a \<in> set (accounts (refreshSingleUsage_start accountId st)).
      id' a = accountId \<longrightarrow> usageLoading a = Some True"
    by (simp add: accounts_start mark_loading_sets)
  have start_frame: "\<forall>k < length (accounts st). id' (accounts st ! k) \<noteq> accountId \<longrightarrow>
         accounts (refreshSingleUsage_start accountId st) ! k = accounts st ! k"
    by (simp add: accounts_start others_untouched)
  have flag: "\<forall>a \<in> set (accounts (fst (refreshSingleUsage_settle accountId r s))).
         id' a = accountId \<longrightarrow> usageLoading a = Some False" for r s
    by (cases r) (simp_all add: accounts_settle clear_loading_sets store_usage_sets)
  have success: "response = Inr u \<longrightarrow>
         snd (refreshSingleUsage_settle accountId response st') = Inr ()
       \<and> (\<forall>a \<in> set ?settled. id' a = accountId \<longrightarrow> usage a = Some u)"
    by (simp add: accounts_settle store_usage_sets)
  have failure: "response = Inl err \<longrightarrow>
         snd (refreshSingleUsage_settle accountId response st') = Inl err
       \<and> map usage ?settled = map usage (accounts st')"
    by (simp add: accounts_settle usage_clear_loading)
  have len: "length ?settled = length (accounts st')"
    by (cases response) (simp_all add: accounts_settle length_updaters)
  have fields: "map AccountInfo.truncate ?settled = map AccountInfo.truncate (accounts st')"
    by (cases response) (simp_all add: accounts_settle truncate_updaters)
  have frame: "\<forall>k < length (accounts st'). id' (accounts st' ! k) \<noteq> accountId \<longrightarrow>
         ?settled ! k = accounts st' ! k"
    by (cases response) (simp_all add: accounts_settle others_untouched)
  have absent: "accountId \<notin> id' ` set (accounts st') \<longrightarrow> ?settled = accounts st'"
    by (cases response) (simp_all add: accounts_settle absent_untouched)
  have whole: "\<forall>a \<in> set (accounts (fst (refreshSingleUsage env accountId st))).
         id' a = accountId \<longrightarrow> usageLoading a = Some False"
    unfolding refreshSingleUsage_def by (rule flag)
  have result: "snd (refreshSingleUsage env accountId st)
       = (case get_usage env accountId of Inl e \<Rightarrow> Inl e | Inr v \<Rightarrow> Inr ())"
    by (simp add: refreshSingleUsage_def refreshSingleUsage_settle_def split: sum.splits)
  show ?thesis
    using start start_frame flag [of response st'] success failure len fields frame absent
      whole result
    by (simp add: accounts_start length_updaters usage_mark_loading)
qed

theorem refreshSingleUsage_touches_only_its_id_witness:
  "map id' (accounts two_accounts) = [''A'', ''B'']
   \<and> map usageLoading (accounts (refreshSingleUsage_start ''B'' two_accounts))
       = [None, Some True]
   \<and> accounts (refreshSingleUsage_start ''B'' two_accounts) ! 0 = accounts two_accounts ! 0
   \<and> map usageLoading (accounts (fst (refreshSingleUsage_settle ''B'' (Inr (usage_of ''B'' 10))
         (refreshSingleUsage_start ''B'' two_accounts))))
       = [None, Some False]
   \<and> map usage (accounts (fst (refreshSingleUsage_settle ''B'' (Inr (usage_of ''B'' 10))
         (refreshSingleUsage_start ''B'' two_accounts))))
       = [Some (usage_of ''A'' 40), Some (usage_of ''B'' 10)]
   \<and> snd (refreshSingleUsage_settle ''B'' (Inl store_down)
         (refreshSingleUsage_start ''B'' two_accounts)) = Inl store_down
   \<and> map usageLoading (accounts (fst (refreshSingleUsage_settle ''B'' (Inl store_down)
         (refreshSingleUsage_start ''B'' two_accounts))))
       = [None, Some False]
   \<and> map usage (accounts (fst (refreshSingleUsage_settle ''B'' (Inl store_down)
         (refreshSingleUsage_start ''B'' two_accounts))))
       = [Some (usage_of ''A'' 40), Some (usage_of ''B'' 70)]
   \<and> ''Z'' \<notin> id' ` set (accounts two_accounts)
   \<and> accounts (fst (refreshSingleUsage_settle ''Z'' (Inr (usage_of ''Z'' 10)) two_accounts))
       = accounts two_accounts"
  using
    refreshSingleUsage_touches_only_its_id
      [where accountId = "''B''" and st = two_accounts
         and response = "Inr (usage_of ''B'' 10)" and u = "usage_of ''B'' 10"
         and st' = "refreshSingleUsage_start ''B'' two_accounts" and env = answers]
    refreshSingleUsage_touches_only_its_id
      [where accountId = "''B''" and st = two_accounts
         and response = "Inl store_down" and err = store_down
         and st' = "refreshSingleUsage_start ''B'' two_accounts" and env = answers]
    refreshSingleUsage_touches_only_its_id
      [where accountId = "''Z''" and st = two_accounts
         and response = "Inr (usage_of ''Z'' 10)" and u = "usage_of ''Z'' 10"
         and st' = two_accounts and env = answers]
  by (simp add: example_defs refreshSingleUsage_start_def refreshSingleUsage_settle_def
      mark_loading_def store_usage_def clear_loading_def)

text \<open>
  C5. When the list-accounts call fails, \<open>loadAccounts\<close> records the failure in the
  registry-level error cell and leaves the list of accounts as it was: no entry is
  added, removed or modified.
\<close>

theorem loadAccounts_failure_keeps_accounts:
  assumes "isTauri env" and "list_accounts env = Inl err"
  shows "accounts (loadAccounts preserveUsage env st) = accounts st
       \<and> hook_state.error (loadAccounts preserveUsage env st) = Some (err_message err)
       \<and> hook_state.loading (loadAccounts preserveUsage env st) = False"
  using assms by (simp add: loadAccounts_def Let_def)

theorem loadAccounts_failure_keeps_accounts_witness:
  "isTauri (answers\<lparr>list_accounts := Inl store_down\<rparr>)
   \<and> list_accounts (answers\<lparr>list_accounts := Inl store_down\<rparr>) = Inl store_down
   \<and> accounts (loadAccounts True (answers\<lparr>list_accounts := Inl store_down\<rparr>) two_accounts)
       = accounts two_accounts
   \<and> hook_state.error (loadAccounts True (answers\<lparr>list_accounts := Inl store_down\<rparr>) two_accounts)
       = Some ''account store unavailable''
   \<and> hook_state.loading (loadAccounts True (answers\<lparr>list_accounts := Inl store_down\<rparr>) two_accounts)
       = False"
  using loadAccounts_failure_keeps_accounts
    [of "answers\<lparr>list_accounts := Inl store_down\<rparr>" store_down True two_accounts]
  by (simp add: example_defs)

text \<open>
  C6. Two calls of \<open>refreshSingleUsage\<close> for the same id overlap: both start, the
  second call's request settles first (with any outcome), and the first call's request
  resolves last with snapshot \<open>u1\<close>. After both, every entry with that id holds
  \<open>u1\<close> with \<open>usageLoading\<close> false, and the entries with other ids are as before.
\<close>

theorem overlapping_refreshSingleUsage_last_settled_wins:
  "(\<forall>a \<in> set (accounts (fst (refreshSingleUsage_settle accountId (Inr u1)
        (fst (refreshSingleUsage_settle accountId response2
           (refreshSingleUsage_start accountId (refreshSingleUsage_start accountId st))))))).
      id' a = accountId \<longrightarrow> usage a = Some u1 \<and> usageLoading a = Some False)
   \<and> (\<forall>k < length (accounts st). id' (accounts st ! k) \<noteq> accountId \<longrightarrow>
        accounts (fst (refreshSingleUsage_settle accountId (Inr u1)
          (fst (refreshSingleUsage_settle accountId response2
             (refreshSingleUsage_start accountId (refreshSingleUsage_start accountId st)))))) ! k
          = accounts st ! k)"
proof -
  let ?s2 = "refreshSingleUsage_start accountId (refreshSingleUsage_start accountId st)"
  let ?s3 = "fst (refreshSingleUsage_settle accountId response2 ?s2)"
  have len2: "length (accounts ?s2) = length (accounts st)"
    by (simp add: accounts_start length_updaters)
  have same2: "accounts ?s2 ! k = accounts st ! k"
    if "k < length (accounts st)" "id' (accounts st ! k) \<noteq> accountId" for k
    using that by (simp add: accounts_start others_untouched length_updaters)
  have len3: "length (accounts ?s3) = length (accounts st)"
    using len2 by (cases response2) (simp_all add: accounts_settle length_updaters)
  have same3: "accounts ?s3 ! k = accounts st ! k"
    if "k < length (accounts st)" "id' (accounts st ! k) \<noteq> accountId" for k
    using that len2 same2 [OF that]
    by (cases response2) (simp_all add: accounts_settle others_untouched)
  have same4: "accounts (fst (refreshSingleUsage_settle accountId (Inr u1) ?s3)) ! k
      = accounts st ! k"
    if "k < length (accounts st)" "id' (accounts st ! k) \<noteq> accountId" for k
    using that len3 same3 [OF that] by (simp add: accounts_settle others_untouched)
  have last: "\<forall>a \<in> set (accounts (fst (refreshSingleUsage_settle accountId (Inr u1) ?s3))).
      id' a = accountId \<longrightarrow> usage a = Some u1 \<and> usageLoading a = Some False"
    by (simp add: accounts_settle store_usage_sets)
  show ?thesis using last same4 by blast
qed

theorem overlapping_refreshSingleUsage_last_settled_wins_witness:
  "map id' (accounts two_accounts) = [''A'', ''B'']
   \<and> accounts (fst (refreshSingleUsage_settle ''A'' (Inr (usage_of ''A'' 11))
        (fst (refreshSingleUsage_settle ''A'' (Inr (usage_of ''A'' 22))
           (refreshSingleUsage_start ''A'' (refreshSingleUsage_start ''A'' two_accounts))))))
      = [(spread (account_of ''A'' True) (Some (usage_of ''A'' 11)))\<lparr>usageLoading := Some False\<rparr>,
         spread (account_of ''B'' False) (Some (usage_of ''B'' 70))]"
  using overlapping_refreshSingleUsage_last_settled_wins
    [of "''A''" "usage_of ''A'' 11" "Inr (usage_of ''A'' 22)" two_accounts]
  by (simp add: example_defs refreshSingleUsage_start_def refreshSingleUsage_settle_def
      mark_loading_def store_usage_def)

text \<open>
  C7. Whenever the login is pending (\<open>oauthPending\<close> holds) and the user cancels, by
  closing the modal or by clicking the import tab, the handler issues \<open>cancel_login\<close>
  to the gateway, as its only command, and the modal is idle afterwards: neither pending
  nor loading.
\<close>

theorem cancel_while_pending_notifies_gateway:
  assumes "oauthPending m"
  shows "invoked (snd (handleClose env (m, h))) = invoked h @ [CancelLogin]
       \<and> \<not> oauthPending (fst (handleClose env (m, h)))
       \<and> \<not> loading (fst (handleClose env (m, h)))
       \<and> \<not> isOpen (fst (handleClose env (m, h)))
       \<and> invoked (snd (tab_onClick import env (m, h))) = invoked h @ [CancelLogin]
       \<and> \<not> oauthPending (fst (tab_onClick import env (m, h)))
       \<and> \<not> loading (fst (tab_onClick import env (m, h)))
       \<and> activeTab (fst (tab_onClick import env (m, h))) = import"
  using assms
  by (simp add: handleClose_def handleClose_of_def resetForm_def tab_onClick_def
      invoked_cancelOAuthLogin)

theorem cancel_while_pending_notifies_gateway_witness:
  "oauthPending waiting
   \<and> invoked two_accounts = []
   \<and> invoked (snd (handleClose answers (waiting, two_accounts))) = [CancelLogin]
   \<and> oauthPending (fst (handleClose answers (waiting, two_accounts))) = False
   \<and> invoked (snd (tab_onClick import answers (waiting, two_accounts))) = [CancelLogin]
   \<and> oauthPending (fst (tab_onClick import answers (waiting, two_accounts))) = False
   \<and> activeTab (fst (tab_onClick import answers (waiting, two_accounts))) = import"
  using cancel_while_pending_notifies_gateway [of waiting answers two_accounts]
  by (simp add: example_defs)

text \<open>
  C8. Starting the login with a name that is empty or consists of white space only
  issues no command to the gateway: \<open>handleOAuthLogin\<close> only sets the validation
  message, and the modal stays idle (\<open>loading\<close> and \<open>oauthPending\<close> are as before).
\<close>

theorem blank_name_is_rejected_before_any_call:
  assumes "\<forall>c \<in> set (name m). isWhiteSpace c"
  shows "handleOAuthLogin env (m, h) = (m\<lparr>error := Some ''Please enter an account name''\<rparr>, h)
       \<and> invoked (snd (handleOAuthLogin env (m, h))) = invoked h
       \<and> loading (fst (handleOAuthLogin env (m, h))) = loading m
       \<and> oauthPending (fst (handleOAuthLogin env (m, h))) = oauthPending m"
  using trim_blank [OF assms] by (simp add: handleOAuthLogin_def)

theorem blank_name_is_rejected_before_any_call_witness:
  "name blank_name = ''  '' \<and> isWhiteSpace CHR '' ''
   \<and> handleOAuthLogin answers (blank_name, two_accounts)
       = (blank_name\<lparr>error := Some ''Please enter an account name''\<rparr>, two_accounts)
   \<and> invoked (snd (handleOAuthLogin answers (blank_name, two_accounts))) = []
   \<and> loading (fst (handleOAuthLogin answers (blank_name, two_accounts))) = False
   \<and> oauthPending (fst (handleOAuthLogin answers (blank_name, two_accounts))) = False"
  using blank_name_is_rejected_before_any_call [of blank_name answers two_accounts]
  by (simp add: example_defs isWhiteSpace_def)

text \<open>
  C10. When the batched call succeeds, \<open>refreshUsage\<close> leaves \<open>usageLoading\<close> false on
  every account of the registry, whether or not the response holds an entry for it. In
  particular it clears the flag that a \<open>refreshSingleUsage\<close> still waiting for its own
  response has set, for any id.
\<close>

theorem refreshUsage_clears_every_loading_flag:
  assumes "refresh_all_accounts_usage env = Inr usageList"
  shows "(\<forall>a \<in> set (accounts (fst (refreshUsage env st))). usageLoading a = Some False)
       \<and> (\<forall>a \<in> set (accounts (fst (refreshUsage env (refreshSingleUsage_start accountId st)))).
             usageLoading a = Some False)"
  using assms by (simp add: refreshUsage_def Let_def overlay_usage_loading)

theorem refreshUsage_clears_every_loading_flag_witness:
  "refresh_all_accounts_usage answers = Inr [usage_of ''A'' 55]
   \<and> usageLoading (accounts (refreshSingleUsage_start ''B'' two_accounts) ! 1) = Some True
   \<and> map usageLoading (accounts (fst (refreshUsage answers two_accounts)))
       = [Some False, Some False]
   \<and> map usageLoading
        (accounts (fst (refreshUsage answers (refreshSingleUsage_start ''B'' two_accounts))))
       = [Some False, Some False]"
  using refreshUsage_clears_every_loading_flag [of answers "[usage_of ''A'' 55]" two_accounts "''B''"]
  by (simp add: example_defs refreshUsage_def overlay_usage_def
      refreshSingleUsage_start_def mark_loading_def)

end
